theory Spec2Isabelle
  imports Complex_Main "HOL-Library.Sublist"
begin

section \<open>Python strings and lists\<close>

text \<open>
  A Python \<open>str\<close> is a sequence of code points. The model uses \<open>string\<close>, whose
  characters are the code points below 256. \<open>isspace\<close> is Python's notion of a
  whitespace character on that range; \<open>str.strip()\<close> and the regular expression
  class \<open>\s\<close> (for \<open>str\<close> patterns) both use it.
\<close>

definition isspace :: "char \<Rightarrow> bool" where
  "isspace c = (c \<in> set [CHR 0x09, CHR 0x0A, CHR 0x0B, CHR 0x0C, CHR 0x0D,
                           CHR 0x1C, CHR 0x1D, CHR 0x1E, CHR 0x1F, CHR 0x20,
                           CHR 0x85, CHR 0xA0])"

definition lstrip :: "string \<Rightarrow> string" where
  "lstrip s = dropWhile isspace s"

definition rstrip :: "string \<Rightarrow> string" where
  "rstrip s = rev (dropWhile isspace (rev s))"

text \<open>\<open>s.strip()\<close>: leading and trailing whitespace removed.\<close>

definition strip :: "string \<Rightarrow> string" where
  "strip s = rstrip (lstrip s)"

definition newline :: char where
  "newline = CHR 0x0A"

definition dquote :: char where
  "dquote = CHR 0x22"

text \<open>
  The regular expression \<open>(.*)\<close> without the DOTALL flag: the longest run of
  characters other than the newline \<open>\n\<close>.
\<close>

definition dot_star :: "string \<Rightarrow> string" where
  "dot_star s = takeWhile (\<lambda>c. c \<noteq> newline) s"

text \<open>\<open>s.replace(old, new)\<close> for a one-character \<open>old\<close>.\<close>

definition replace_char :: "char \<Rightarrow> string \<Rightarrow> string \<Rightarrow> string" where
  "replace_char old new s = concat (map (\<lambda>c. if c = old then new else [c]) s)"

text \<open>
  The slice \<open>xs[-n:]\<close> for an integer \<open>n\<close>: the last \<open>n\<close> elements when \<open>n\<close> is
  positive (all of them when the list is shorter), the whole list when \<open>n = 0\<close>
  (\<open>-0\<close> is \<open>0\<close>), and \<open>xs[k:]\<close> when \<open>n = -k\<close> is negative.
\<close>

definition slice_last :: "int \<Rightarrow> 'a list \<Rightarrow> 'a list" where
  "slice_last n xs =
     (if 0 < n then drop (length xs - nat n) xs
      else drop (nat (- n)) xs)"

section \<open>Config\<close>

record level_info =
  name :: string
  color :: string
  priority :: nat

text \<open>\<open>Config.LOG_LEVELS\<close>, in the order the dictionary literal lists its keys.\<close>

definition LOG_LEVELS :: "(string \<times> level_info) list" where
  "LOG_LEVELS =
     [(''0'', \<lparr>name = ''ERROR'', color = ''#FF4444'', priority = 0\<rparr>),
      (''1'', \<lparr>name = ''WARN'', color = ''#FFA500'', priority = 1\<rparr>),
      (''2'', \<lparr>name = ''INFO'', color = ''#00AAFF'', priority = 2\<rparr>),
      (''3'', \<lparr>name = ''DEBUG'', color = ''#00FF88'', priority = 3\<rparr>),
      (''4'', \<lparr>name = ''VERBOSE'', color = ''#888888'', priority = 4\<rparr>),
      (''wm'', \<lparr>name = ''WIFIMANAGER'', color = ''#FF00FF'', priority = 5\<rparr>),
      (''verbose'', \<lparr>name = ''GENERIC'', color = ''#CCCCCC'', priority = 6\<rparr>)]"

section \<open>LogEntry\<close>

text \<open>
  A \<open>datetime\<close> value; its fields lie in the ranges the Python type enforces
  (month 1..12, hour 0..23, microsecond 0..999999, and so on).
\<close>

record datetime =
  year :: nat
  month :: nat
  day :: nat
  hour :: nat
  minute :: nat
  second :: nat
  microsecond :: nat

text \<open>
  The attributes of a \<open>LogEntry\<close> object. \<open>level\<close> and \<open>message\<close> default to
  \<open>None\<close> in the constructor, so both are optional strings.
\<close>

record log_entry =
  raw_data :: string
  timestamp :: datetime
  level :: "string option"
  message :: "string option"
  parsed :: bool

text \<open>
  \<open>re.match(r'^\[([0-4])\]\s*(.*)', s)\<close>: \<open>None\<close> when there is no match, otherwise
  the two groups. After the three marker characters \<open>\s*\<close> takes every whitespace
  character that follows and \<open>(.*)\<close> the rest up to a newline; neither can fail, so
  there is no backtracking.
\<close>

definition match_level_pattern :: "string \<Rightarrow> (string \<times> string) option" where
  "match_level_pattern s =
     (case s of
        a # d # b # rest \<Rightarrow>
          if a = CHR ''['' \<and> d \<in> set ''01234'' \<and> b = CHR '']''
          then Some ([d], dot_star (lstrip rest))
          else None
      | _ \<Rightarrow> None)"

text \<open>\<open>re.match(r'^\*wm\s*(.*)', s)\<close>: \<open>None\<close> or the one group.\<close>

definition match_wm_pattern :: "string \<Rightarrow> string option" where
  "match_wm_pattern s =
     (case s of
        a # b # c # rest \<Rightarrow>
          if a = CHR ''*'' \<and> b = CHR ''w'' \<and> c = CHR ''m''
          then Some (dot_star (lstrip rest))
          else None
      | _ \<Rightarrow> None)"

text \<open>\<open>LogEntry._parse_log\<close>: the three patterns in the order of the source.\<close>

definition parse_log :: "log_entry \<Rightarrow> log_entry" where
  "parse_log e =
     (case match_level_pattern (raw_data e) of
        Some (g1, g2) \<Rightarrow> e\<lparr>level := Some g1, message := Some g2, parsed := True\<rparr>
      | None \<Rightarrow>
         (case match_wm_pattern (raw_data e) of
            Some g1 \<Rightarrow> e\<lparr>level := Some ''wm'', message := Some g1, parsed := True\<rparr>
          | None \<Rightarrow>
              e\<lparr>level := Some ''verbose'', message := Some (raw_data e), parsed := False\<rparr>))"

text \<open>
  \<open>LogEntry.__init__(raw_data, timestamp, level=None, message=None)\<close>: the
  attributes are assigned from the arguments, then \<open>_parse_log\<close> runs.
\<close>

definition LogEntry :: "string \<Rightarrow> datetime \<Rightarrow> string option \<Rightarrow> string option \<Rightarrow> log_entry" where
  "LogEntry raw ts lvl msg =
     parse_log \<lparr>raw_data = strip raw, timestamp = ts, level = lvl, message = msg,
                parsed = False\<rparr>"

text \<open>\<open>Config.LOG_LEVELS.get(self.level, {})\<close>: the entry of the level, if any.\<close>

definition level_entry :: "log_entry \<Rightarrow> level_info option" where
  "level_entry e = (case level e of None \<Rightarrow> None | Some l \<Rightarrow> map_of LOG_LEVELS l)"

text \<open>\<open>LogEntry.get_level_name\<close> and \<open>LogEntry.get_level_color\<close>.\<close>

definition get_level_name :: "log_entry \<Rightarrow> string" where
  "get_level_name e = (case level_entry e of None \<Rightarrow> ''UNKNOWN'' | Some i \<Rightarrow> name i)"

definition get_level_color :: "log_entry \<Rightarrow> string" where
  "get_level_color e = (case level_entry e of None \<Rightarrow> ''#FFFFFF'' | Some i \<Rightarrow> color i)"

section \<open>LogDisplayWidget\<close>

text \<open>
  The attributes of the widget that the log store uses. \<open>max_lines\<close> is a Python
  integer; the settings dialog offers 1000 to 100000, it starts at 10000.
\<close>

record log_display =
  log_entries :: "log_entry list"
  filtered_entries :: "log_entry list"
  level_filter :: "bool list"
  max_lines :: int

definition new_log_display :: log_display where
  "new_log_display =
     \<lparr>log_entries = [], filtered_entries = [], level_filter = replicate 7 True,
      max_lines = 10000\<rparr>"

text \<open>The local dictionary \<open>level_map\<close> of \<open>apply_filters\<close>.\<close>

definition level_map :: "(string \<times> nat) list" where
  "level_map =
     [(''0'', 0), (''1'', 1), (''2'', 2), (''3'', 3), (''4'', 4), (''wm'', 5),
      (''verbose'', 6)]"

text \<open>\<open>level_map.get(entry.level, 2)\<close>.\<close>

definition level_idx :: "log_entry \<Rightarrow> nat" where
  "level_idx e =
     (case level e of
        None \<Rightarrow> 2
      | Some l \<Rightarrow> (case map_of level_map l of None \<Rightarrow> 2 | Some i \<Rightarrow> i))"

text \<open>
  The test of the loop body,
  \<open>level_idx < len(self.level_filter) and self.level_filter[level_idx]\<close>.
\<close>

definition passes_filter :: "bool list \<Rightarrow> log_entry \<Rightarrow> bool" where
  "passes_filter fs e = (if level_idx e < length fs then fs ! level_idx e else False)"

text \<open>
  The loop of \<open>apply_filters\<close>: \<open>acc\<close> is \<open>self.filtered_entries\<close>, the last argument
  the entries still to visit.
\<close>

fun filter_loop :: "bool list \<Rightarrow> log_entry list \<Rightarrow> log_entry list \<Rightarrow> log_entry list" where
  "filter_loop fs acc [] = acc"
| "filter_loop fs acc (e # es) =
     filter_loop fs (if passes_filter fs e then acc @ [e] else acc) es"

text \<open>\<open>LogDisplayWidget.apply_filters\<close> (the redrawing of the widget is left out).\<close>

definition apply_filters :: "log_display \<Rightarrow> log_display" where
  "apply_filters w = w\<lparr>filtered_entries := filter_loop (level_filter w) [] (log_entries w)\<rparr>"

text \<open>\<open>LogDisplayWidget.add_log_entry\<close>.\<close>

definition add_log_entry :: "log_display \<Rightarrow> log_entry \<Rightarrow> log_display" where
  "add_log_entry w e =
     (let es = log_entries w @ [e];
          es' = (if int (length es) > max_lines w then slice_last (max_lines w) es else es)
      in apply_filters (w\<lparr>log_entries := es'\<rparr>))"

text \<open>\<open>LogDisplayWidget.set_level_filter\<close>.\<close>

definition set_level_filter :: "log_display \<Rightarrow> bool list \<Rightarrow> log_display" where
  "set_level_filter w fs = apply_filters (w\<lparr>level_filter := fs\<rparr>)"

section \<open>MainWindow\<close>

text \<open>
  The part of the main window that the log store depends on: the widget, the
  setting \<open>log_file_size_mb\<close> and the connection flag.
\<close>

record main_window =
  log_display :: log_display
  log_file_size_mb :: int
  connected :: bool

text \<open>\<open>MainWindow.trim_logs\<close>.\<close>

definition trim_logs :: "main_window \<Rightarrow> main_window" where
  "trim_logs m =
     (let entries = log_entries (log_display m)
      in if length entries > 1000
         then m\<lparr>log_display :=
                  apply_filters ((log_display m)\<lparr>log_entries := slice_last 1000 entries\<rparr>)\<rparr>
         else m)"

text \<open>\<open>total_size\<close> of \<open>update_statistics\<close>: the sum of \<open>len(entry.raw_data)\<close>.\<close>

definition total_size :: "log_entry list \<Rightarrow> nat" where
  "total_size es = sum_list (map (\<lambda>e. length (raw_data e)) es)"

text \<open>
  \<open>MainWindow.update_statistics\<close> (the labels are left out). \<open>size_kb\<close> is the
  quotient \<open>total_size / 1024\<close>, here an exact rational number; the floating-point
  quotient of the source is exact as long as the sum is below \<open>2 ^ 53\<close>.
\<close>

definition update_statistics :: "main_window \<Rightarrow> main_window" where
  "update_statistics m =
     (let size_kb = (of_nat (total_size (log_entries (log_display m))) :: rat) / 1024
      in if size_kb > of_int (log_file_size_mb m * 1024) then trim_logs m else m)"

text \<open>\<open>MainWindow.on_data_received\<close>.\<close>

definition on_data_received :: "main_window \<Rightarrow> string \<Rightarrow> datetime \<Rightarrow> main_window" where
  "on_data_received m data now =
     update_statistics
       (m\<lparr>log_display := add_log_entry (log_display m) (LogEntry data now None None)\<rparr>)"

text \<open>
  \<open>MainWindow.send_data\<close>: \<open>data\<close> is the text of the input field, \<open>sent\<close> the result
  of the worker's \<open>send_data\<close>. The echoed entry is built with \<open>level='2'\<close>.
\<close>

definition send_data :: "main_window \<Rightarrow> string \<Rightarrow> bool \<Rightarrow> datetime \<Rightarrow> main_window" where
  "send_data m data sent now =
     (if connected m \<and> data \<noteq> [] \<and> sent
      then m\<lparr>log_display :=
               add_log_entry (log_display m) (LogEntry (''>> '' @ data) now (Some ''2'') None)\<rparr>
      else m)"

section \<open>ExportDialog\<close>

datatype py_error = AttributeError

text \<open>Decimal digits, and numbers zero-padded to a fixed width as \<open>strftime\<close> prints them.\<close>

definition digit :: "nat \<Rightarrow> char" where
  "digit n = ''0123456789'' ! (n mod 10)"

definition padded2 :: "nat \<Rightarrow> string" where
  "padded2 n = [digit (n div 10), digit n]"

definition padded4 :: "nat \<Rightarrow> string" where
  "padded4 n = [digit (n div 1000), digit (n div 100), digit (n div 10), digit n]"

definition padded6 :: "nat \<Rightarrow> string" where
  "padded6 n =
     [digit (n div 100000), digit (n div 10000), digit (n div 1000), digit (n div 100),
      digit (n div 10), digit n]"

text \<open>\<open>ts.strftime('%Y-%m-%d %H:%M:%S.%f')\<close>.\<close>

definition strftime_full :: "datetime \<Rightarrow> string" where
  "strftime_full ts =
     padded4 (year ts) @ ''-'' @ padded2 (month ts) @ ''-'' @ padded2 (day ts) @ '' '' @
     padded2 (hour ts) @ '':'' @ padded2 (minute ts) @ '':'' @ padded2 (second ts) @ ''.'' @
     padded6 (microsecond ts)"

text \<open>The slice \<open>s[:-3]\<close>.\<close>

definition drop_last3 :: "string \<Rightarrow> string" where
  "drop_last3 s = take (length s - 3) s"

text \<open>
  The CSV branch of \<open>ExportDialog.format_entry\<close>; \<open>include_timestamps\<close> is the state
  of the check box. \<open>entry.message.replace\<close> raises \<open>AttributeError\<close> on \<open>None\<close>.
\<close>

definition format_entry_csv :: "bool \<Rightarrow> log_entry \<Rightarrow> py_error + string" where
  "format_entry_csv include_timestamps entry =
     (let ts = (if include_timestamps then drop_last3 (strftime_full (timestamp entry)) else []);
          lvl = get_level_name entry
      in case message entry of
           None \<Rightarrow> Inl AttributeError
         | Some m \<Rightarrow>
             (let msg = replace_char dquote [dquote, dquote] m
              in if include_timestamps
                 then Inr ([dquote] @ ts @ [dquote] @ '','' @ [dquote] @ lvl @ [dquote] @ '','' @
                           [dquote] @ msg @ [dquote])
                 else Inr ([dquote] @ lvl @ [dquote] @ '','' @ [dquote] @ msg @ [dquote])))"

text \<open>
  \<open>ExportDialog.get_filtered_entries\<close>: \<open>cbs\<close> are the states of the level check
  boxes, \<open>level_keys\<close> the keys of \<open>Config.LOG_LEVELS\<close> in order.
\<close>

definition selected_levels :: "bool list \<Rightarrow> string list" where
  "selected_levels cbs =
     (let level_keys = map fst LOG_LEVELS
      in [level_keys ! i. i \<leftarrow> [0..<length cbs], cbs ! i \<and> i < length level_keys])"

definition get_filtered_entries :: "bool list \<Rightarrow> log_entry list \<Rightarrow> log_entry list" where
  "get_filtered_entries cbs entries =
     filter (\<lambda>e. case level e of None \<Rightarrow> False | Some l \<Rightarrow> l \<in> set (selected_levels cbs))
       entries"

text \<open>The header line that \<open>export_logs\<close> writes for the CSV format.\<close>

definition csv_header :: "bool \<Rightarrow> string" where
  "csv_header include_timestamps =
     (if include_timestamps then ''Timestamp,Level,Message'' @ [newline]
      else ''Level,Message'' @ [newline])"

text \<open>
  The loop of \<open>export_logs\<close>: each entry is formatted and written with a newline. An
  exception leaves the loop; the result is then the error.
\<close>

fun write_entries :: "bool \<Rightarrow> log_entry list \<Rightarrow> py_error + string" where
  "write_entries include_timestamps [] = Inr []"
| "write_entries include_timestamps (e # es) =
     (case format_entry_csv include_timestamps e of
        Inl err \<Rightarrow> Inl err
      | Inr line \<Rightarrow>
          (case write_entries include_timestamps es of
             Inl err \<Rightarrow> Inl err
           | Inr body \<Rightarrow> Inr (line @ [newline] @ body)))"

text \<open>The text that \<open>export_logs\<close> writes to the file when the CSV format is selected.\<close>

definition export_logs_csv :: "bool \<Rightarrow> bool list \<Rightarrow> log_entry list \<Rightarrow> py_error + string" where
  "export_logs_csv include_timestamps cbs entries =
     (case write_entries include_timestamps (get_filtered_entries cbs entries) of
        Inl err \<Rightarrow> Inl err
      | Inr body \<Rightarrow> Inr (csv_header include_timestamps @ body))"

subsection \<open>A reader for CSV text\<close>

text \<open>
  The repository has no CSV reader. To state that exported content can be read back,
  this is a reader for the usual CSV format: fields are separated by commas and
  records by newlines; a field that starts with a double quote runs to the closing
  double quote, and two double quotes inside it stand for one. The arguments of
  \<open>csv_scan\<close> are the state, the finished records, the finished fields \<open>flds\<close> of the current
  record and the characters of the current field.
\<close>

datatype csv_state = FieldStart | Unquoted | Quoted | QuoteSeen

fun csv_scan ::
  "csv_state \<Rightarrow> string list list \<Rightarrow> string list \<Rightarrow> string \<Rightarrow> string \<Rightarrow> string list list option"
where
  "csv_scan FieldStart rows flds cur [] =
     Some (if flds = [] then rows else rows @ [flds @ [Nil]])"
| "csv_scan Unquoted rows flds cur [] = Some (rows @ [flds @ [cur]])"
| "csv_scan Quoted rows flds cur [] = None"
| "csv_scan QuoteSeen rows flds cur [] = Some (rows @ [flds @ [cur]])"
| "csv_scan FieldStart rows flds cur (c # cs) =
     (if c = dquote then csv_scan Quoted rows flds [] cs
      else if c = CHR '','' then csv_scan FieldStart rows (flds @ [Nil]) [] cs
      else if c = newline then csv_scan FieldStart (rows @ [flds @ [Nil]]) [] [] cs
      else csv_scan Unquoted rows flds [c] cs)"
| "csv_scan Unquoted rows flds cur (c # cs) =
     (if c = dquote then None
      else if c = CHR '','' then csv_scan FieldStart rows (flds @ [cur]) [] cs
      else if c = newline then csv_scan FieldStart (rows @ [flds @ [cur]]) [] [] cs
      else csv_scan Unquoted rows flds (cur @ [c]) cs)"
| "csv_scan Quoted rows flds cur (c # cs) =
     (if c = dquote then csv_scan QuoteSeen rows flds cur cs
      else csv_scan Quoted rows flds (cur @ [c]) cs)"
| "csv_scan QuoteSeen rows flds cur (c # cs) =
     (if c = dquote then csv_scan Quoted rows flds (cur @ [dquote]) cs
      else if c = CHR '','' then csv_scan FieldStart rows (flds @ [cur]) [] cs
      else if c = newline then csv_scan FieldStart (rows @ [flds @ [cur]]) [] [] cs
      else None)"

definition csv_read :: "string \<Rightarrow> string list list option" where
  "csv_read s = csv_scan FieldStart [] [] [] s"

text \<open>
  The fields a reader is expected to return for the record of an entry: the timestamp
  (when included), the display name and the message; and a field between double quotes.
\<close>

definition csv_row :: "bool \<Rightarrow> log_entry \<Rightarrow> string list" where
  "csv_row include_timestamps e =
     (if include_timestamps
      then [drop_last3 (strftime_full (timestamp e)), get_level_name e, the (message e)]
      else [get_level_name e, the (message e)])"

definition csv_quoted :: "string \<Rightarrow> string" where
  "csv_quoted s = [dquote] @ s @ [dquote]"

section \<open>Properties of the classifier\<close>

lemmas classify_defs =
  LogEntry_def parse_log_def strip_def lstrip_def rstrip_def isspace_def
  match_level_pattern_def match_wm_pattern_def dot_star_def newline_def

lemma set_strip_subset: "set (strip s) \<subseteq> set s"
proof -
  have "set (rstrip t) \<subseteq> set t" for t
    using set_dropWhileD [of _ isspace "rev t"] by (auto simp: rstrip_def)
  moreover have "set (lstrip s) \<subseteq> set s"
    by (auto simp: lstrip_def dest: set_dropWhileD)
  ultimately show ?thesis
    unfolding strip_def by blast
qed

lemma dot_star_no_newline: "newline \<notin> set s \<Longrightarrow> dot_star s = s"
  by (auto simp: dot_star_def takeWhile_eq_all_conv)

lemma dot_star_lstrip:
  assumes "newline \<notin> set line" and "strip line = p @ rest"
  shows "dot_star (lstrip rest) = lstrip rest"
proof -
  have "set (lstrip rest) \<subseteq> set rest"
    by (auto simp: lstrip_def dest: set_dropWhileD)
  also have "\<dots> \<subseteq> set (strip line)" using assms(2) by simp
  also have "\<dots> \<subseteq> set line" by (rule set_strip_subset)
  finally show ?thesis using assms(1) by (intro dot_star_no_newline) blast
qed

lemma LogEntry_level_marker:
  assumes "strip line = CHR ''['' # d # CHR '']'' # rest" and "d \<in> set ''01234''"
  shows "LogEntry line ts lvl msg =
     \<lparr>raw_data = strip line, timestamp = ts, level = Some [d],
      message = Some (dot_star (lstrip rest)), parsed = True\<rparr>"
  using assms by (simp add: LogEntry_def parse_log_def match_level_pattern_def)

lemma LogEntry_wm_marker:
  assumes "strip line = CHR ''*'' # CHR ''w'' # CHR ''m'' # rest"
  shows "LogEntry line ts lvl msg =
     \<lparr>raw_data = strip line, timestamp = ts, level = Some ''wm'',
      message = Some (dot_star (lstrip rest)), parsed = True\<rparr>"
  using assms
  by (simp add: LogEntry_def parse_log_def match_level_pattern_def match_wm_pattern_def)

lemma match_level_pattern_None:
  "(match_level_pattern t = None) =
     (\<not> (\<exists>d \<in> set ''01234''. prefix [CHR ''['', d, CHR '']''] t))"
  by (auto simp: match_level_pattern_def prefix_def split: list.splits)

lemma match_wm_pattern_None: "(match_wm_pattern t = None) = (\<not> prefix ''*wm'' t)"
  by (auto simp: match_wm_pattern_def prefix_def split: list.splits)

lemma LogEntry_generic:
  assumes "\<not> (\<exists>d \<in> set ''01234''. prefix [CHR ''['', d, CHR '']''] (strip line))"
    and "\<not> prefix ''*wm'' (strip line)"
  shows "LogEntry line ts lvl msg =
     \<lparr>raw_data = strip line, timestamp = ts, level = Some ''verbose'',
      message = Some (strip line), parsed = False\<rparr>"
proof -
  have "match_level_pattern (strip line) = None" "match_wm_pattern (strip line) = None"
    using assms
    by (simp_all only: match_level_pattern_None match_wm_pattern_None not_False_eq_True)
  then show ?thesis
    by (simp add: LogEntry_def parse_log_def)
qed

lemma LogEntry_system_ready:
  "LogEntry ''[2] system ready'' ts lvl msg =
    \<lparr>raw_data = ''[2] system ready'', timestamp = ts, level = Some ''2'',
      message = Some ''system ready'', parsed = True\<rparr>"
  by (simp add: classify_defs)

lemma rstrip_Cons_nonspace: "\<not> isspace c \<Longrightarrow> rstrip (c # s) = c # rstrip s"
  by (simp add: rstrip_def dropWhile_append3)

lemma strip_Cons_nonspace: "\<not> isspace c \<Longrightarrow> strip (c # s) = c # rstrip s"
  by (simp add: strip_def lstrip_def rstrip_Cons_nonspace)

lemma parse_log_overwrites:
  "parse_log (e\<lparr>level := lvl, message := msg\<rparr>) =
   parse_log (e\<lparr>level := lvl', message := msg'\<rparr>)"
  by (simp add: parse_log_def split: option.splits prod.splits)

lemma level_entry_parse_log: "level_entry (parse_log e) \<noteq> None"
  by (auto simp: parse_log_def match_level_pattern_def match_wm_pattern_def level_entry_def
        LOG_LEVELS_def split: option.splits list.splits if_splits)

lemma message_parse_log: "message (parse_log e) \<noteq> None"
  by (simp add: parse_log_def split: option.splits prod.splits)

lemma LogEntry_level_registered: "level_entry (LogEntry raw ts lvl msg) \<noteq> None"
  unfolding LogEntry_def by (rule level_entry_parse_log)

lemma LogEntry_has_message: "message (LogEntry raw ts lvl msg) \<noteq> None"
  unfolding LogEntry_def by (rule message_parse_log)

lemma LogEntry_echo:
  "LogEntry (CHR ''>'' # s) ts lvl msg =
     \<lparr>raw_data = strip (CHR ''>'' # s), timestamp = ts, level = Some ''verbose'',
      message = Some (strip (CHR ''>'' # s)), parsed = False\<rparr>"
proof -
  have "\<not> isspace (CHR ''>'')" by (simp add: isspace_def)
  then show ?thesis
    by (simp add: LogEntry_def parse_log_def strip_Cons_nonspace
          match_level_pattern_def match_wm_pattern_def split: list.splits)
qed

text \<open>
  C1, as stated: if the input line starts with \<open>[d]\<close>, the message is the rest of the
  line with leading whitespace stripped. The constructor trims the line first, so for
  the line \<open>[2] ready\<close> followed by a space the message is \<open>ready\<close>, without the
  trailing space that the rest of the line has.
\<close>

theorem classify_level_marker_counterexample:
  "prefix ''[2]'' ''[2] ready '' \<and>
   lstrip (drop 3 ''[2] ready '') = ''ready '' \<and>
   message (LogEntry ''[2] ready ''
      \<lparr>year = 2024, month = 5, day = 17, hour = 9, minute = 3, second = 7,
       microsecond = 123456\<rparr> None None) = Some ''ready'' \<and>
   message (LogEntry ''[2] ready ''
      \<lparr>year = 2024, month = 5, day = 17, hour = 9, minute = 3, second = 7,
       microsecond = 123456\<rparr> None None) \<noteq> Some (lstrip (drop 3 ''[2] ready ''))"
  by (simp add: classify_defs)

text \<open>
  C1, amended: for every input line and timestamp, classification works on the line
  trimmed of leading and trailing whitespace. If the trimmed line starts with \<open>[d]\<close>,
  \<open>d\<close> a digit from 0 to 4, the category is that digit and the message is the rest of
  the trimmed line with leading whitespace stripped; otherwise, if the trimmed line
  starts with \<open>*wm\<close>, the category is \<open>wm\<close> and the message is the rest of the trimmed
  line with leading whitespace stripped. In both cases the message stops at the first
  newline character left in it, so it is the whole stripped rest for a line without a
  newline. Classifying \<open>[2] system ready\<close> gives category \<open>2\<close> (INFO) and the message
  \<open>system ready\<close>.
\<close>

theorem classify_marker_precedence:
  "(strip line = CHR ''['' # d # CHR '']'' # rest \<and> d \<in> set ''01234'' \<longrightarrow>
      level (LogEntry line ts lvl msg) = Some [d] \<and>
      parsed (LogEntry line ts lvl msg) \<and>
      message (LogEntry line ts lvl msg) = Some (dot_star (lstrip rest)) \<and>
      (newline \<notin> set line \<longrightarrow> message (LogEntry line ts lvl msg) = Some (lstrip rest))) \<and>
   (strip line = ''*wm'' @ rest \<longrightarrow>
      level (LogEntry line ts lvl msg) = Some ''wm'' \<and>
      parsed (LogEntry line ts lvl msg) \<and>
      message (LogEntry line ts lvl msg) = Some (dot_star (lstrip rest)) \<and>
      (newline \<notin> set line \<longrightarrow> message (LogEntry line ts lvl msg) = Some (lstrip rest))) \<and>
   level (LogEntry ''[2] system ready'' ts lvl msg) = Some ''2'' \<and>
   get_level_name (LogEntry ''[2] system ready'' ts lvl msg) = ''INFO'' \<and>
   message (LogEntry ''[2] system ready'' ts lvl msg) = Some ''system ready''"
proof (intro conjI impI)
  assume a: "strip line = CHR ''['' # d # CHR '']'' # rest \<and> d \<in> set ''01234''"
  then have e: "LogEntry line ts lvl msg =
     \<lparr>raw_data = strip line, timestamp = ts, level = Some [d],
      message = Some (dot_star (lstrip rest)), parsed = True\<rparr>"
    by (intro LogEntry_level_marker) simp_all
  show "level (LogEntry line ts lvl msg) = Some [d]"
    and "parsed (LogEntry line ts lvl msg)"
    and "message (LogEntry line ts lvl msg) = Some (dot_star (lstrip rest))"
    by (simp_all add: e)
  assume "newline \<notin> set line"
  moreover from a have "strip line = [CHR ''['', d, CHR '']''] @ rest" by simp
  ultimately have "dot_star (lstrip rest) = lstrip rest" by (rule dot_star_lstrip)
  then show "message (LogEntry line ts lvl msg) = Some (lstrip rest)"
    by (simp add: e)
next
  assume a: "strip line = ''*wm'' @ rest"
  then have e: "LogEntry line ts lvl msg =
     \<lparr>raw_data = strip line, timestamp = ts, level = Some ''wm'',
      message = Some (dot_star (lstrip rest)), parsed = True\<rparr>"
    by (intro LogEntry_wm_marker) simp
  show "level (LogEntry line ts lvl msg) = Some ''wm''"
    and "parsed (LogEntry line ts lvl msg)"
    and "message (LogEntry line ts lvl msg) = Some (dot_star (lstrip rest))"
    by (simp_all add: e)
  assume "newline \<notin> set line"
  then have "dot_star (lstrip rest) = lstrip rest" using a by (rule dot_star_lstrip)
  then show "message (LogEntry line ts lvl msg) = Some (lstrip rest)"
    by (simp add: e)
next
  show "level (LogEntry ''[2] system ready'' ts lvl msg) = Some ''2''"
    and "message (LogEntry ''[2] system ready'' ts lvl msg) = Some ''system ready''"
    by (simp_all add: LogEntry_system_ready)
  show "get_level_name (LogEntry ''[2] system ready'' ts lvl msg) = ''INFO''"
    by (simp add: LogEntry_system_ready get_level_name_def level_entry_def LOG_LEVELS_def)
qed

theorem classify_marker_precedence_witness:
  "strip ''[2] ready '' = CHR ''['' # CHR ''2'' # CHR '']'' # '' ready'' \<and>
   CHR ''2'' \<in> set ''01234'' \<and>
   newline \<notin> set ''[2] ready '' \<and>
   level (LogEntry ''[2] ready '' \<lparr>year = 2024, month = 5, day = 17, hour = 9, minute = 3, second = 7,
       microsecond = 123456\<rparr> None None) = Some ''2'' \<and>
   message (LogEntry ''[2] ready '' \<lparr>year = 2024, month = 5, day = 17, hour = 9, minute = 3, second = 7,
       microsecond = 123456\<rparr> None None) = Some ''ready'' \<and>
   strip ''*wm AP started'' = ''*wm'' @ '' AP started'' \<and>
   newline \<notin> set ''*wm AP started'' \<and>
   level (LogEntry ''*wm AP started'' \<lparr>year = 2024, month = 5, day = 17, hour = 9, minute = 3, second = 7,
       microsecond = 123456\<rparr> None None) = Some ''wm'' \<and>
   message (LogEntry ''*wm AP started'' \<lparr>year = 2024, month = 5, day = 17, hour = 9, minute = 3, second = 7,
       microsecond = 123456\<rparr> None None) = Some ''AP started''"
proof -
  have h1: "strip ''[2] ready '' = CHR ''['' # CHR ''2'' # CHR '']'' # '' ready'' \<and>
      CHR ''2'' \<in> set ''01234''"
    and n1: "newline \<notin> set ''[2] ready ''"
    and h2: "strip ''*wm AP started'' = ''*wm'' @ '' AP started''"
    and n2: "newline \<notin> set ''*wm AP started''"
    by (simp_all add: strip_def lstrip_def rstrip_def isspace_def newline_def)
  have l1: "lstrip '' ready'' = ''ready''" and l2: "lstrip '' AP started'' = ''AP started''"
    by (simp_all add: lstrip_def isspace_def)
  from h1 n1
    classify_marker_precedence [where line = "''[2] ready ''" and d = "CHR ''2''"
      and rest = "'' ready''" and ts = "\<lparr>year = 2024, month = 5, day = 17, hour = 9, minute = 3, second = 7,
       microsecond = 123456\<rparr>" and lvl = None and msg = None]
  have "level (LogEntry ''[2] ready '' \<lparr>year = 2024, month = 5, day = 17, hour = 9, minute = 3, second = 7,
       microsecond = 123456\<rparr> None None) = Some ''2'' \<and>
        message (LogEntry ''[2] ready '' \<lparr>year = 2024, month = 5, day = 17, hour = 9, minute = 3, second = 7,
       microsecond = 123456\<rparr> None None) = Some (lstrip '' ready'')"
    by blast
  moreover from h2 n2
    classify_marker_precedence [where line = "''*wm AP started''"
      and rest = "'' AP started''" and ts = "\<lparr>year = 2024, month = 5, day = 17, hour = 9, minute = 3, second = 7,
       microsecond = 123456\<rparr>" and lvl = None and msg = None]
  have "level (LogEntry ''*wm AP started'' \<lparr>year = 2024, month = 5, day = 17, hour = 9, minute = 3, second = 7,
       microsecond = 123456\<rparr> None None) = Some ''wm'' \<and>
        message (LogEntry ''*wm AP started'' \<lparr>year = 2024, month = 5, day = 17, hour = 9, minute = 3, second = 7,
       microsecond = 123456\<rparr> None None) = Some (lstrip '' AP started'')"
    by blast
  ultimately show ?thesis
    using h1 n1 h2 n2 by (simp only: l1 l2) blast
qed

text \<open>
  C2, as stated: for a line that matches neither marker the message equals the input
  line verbatim. The line \<open>boot complete\<close> followed by a space falls through to the
  catch-all category, and its message is the trimmed line, not the input line.
\<close>

theorem catch_all_message_counterexample:
  "level (LogEntry ''boot complete '' \<lparr>year = 2024, month = 5, day = 17, hour = 9, minute = 3, second = 7,
       microsecond = 123456\<rparr> None None) = Some ''verbose'' \<and>
   parsed (LogEntry ''boot complete '' \<lparr>year = 2024, month = 5, day = 17, hour = 9, minute = 3, second = 7,
       microsecond = 123456\<rparr> None None) = False \<and>
   message (LogEntry ''boot complete '' \<lparr>year = 2024, month = 5, day = 17, hour = 9, minute = 3, second = 7,
       microsecond = 123456\<rparr> None None) = Some ''boot complete'' \<and>
   message (LogEntry ''boot complete '' \<lparr>year = 2024, month = 5, day = 17, hour = 9, minute = 3, second = 7,
       microsecond = 123456\<rparr> None None) \<noteq> Some ''boot complete ''"
  by (simp add: classify_defs)

text \<open>
  C2, amended: for every line whose trimmed form starts with neither a severity
  marker \<open>[0]\<close> .. \<open>[4]\<close> nor the marker \<open>*wm\<close>, classification assigns the catch-all
  category (\<open>verbose\<close>, shown as GENERIC), sets \<open>parsed\<close> (recognized) to false, and the
  message equals the trimmed line (the stored raw text) verbatim.
\<close>

theorem catch_all_message:
  assumes "\<not> (\<exists>d \<in> set ''01234''. prefix [CHR ''['', d, CHR '']''] (strip line))"
    and "\<not> prefix ''*wm'' (strip line)"
  shows "level (LogEntry line ts lvl msg) = Some ''verbose'' \<and>
         get_level_name (LogEntry line ts lvl msg) = ''GENERIC'' \<and>
         parsed (LogEntry line ts lvl msg) = False \<and>
         message (LogEntry line ts lvl msg) = Some (strip line) \<and>
         raw_data (LogEntry line ts lvl msg) = strip line"
  by (simp add: LogEntry_generic [OF assms] get_level_name_def level_entry_def LOG_LEVELS_def)

theorem catch_all_message_witness:
  "\<not> (\<exists>d \<in> set ''01234''. prefix [CHR ''['', d, CHR '']''] (strip ''boot complete '')) \<and>
   \<not> prefix ''*wm'' (strip ''boot complete '') \<and>
   level (LogEntry ''boot complete '' \<lparr>year = 2024, month = 5, day = 17, hour = 9, minute = 3, second = 7,
       microsecond = 123456\<rparr> None None) = Some ''verbose'' \<and>
   parsed (LogEntry ''boot complete '' \<lparr>year = 2024, month = 5, day = 17, hour = 9, minute = 3, second = 7,
       microsecond = 123456\<rparr> None None) = False \<and>
   message (LogEntry ''boot complete '' \<lparr>year = 2024, month = 5, day = 17, hour = 9, minute = 3, second = 7,
       microsecond = 123456\<rparr> None None) = Some ''boot complete''"
proof -
  have s: "strip ''boot complete '' = ''boot complete''"
    by (simp add: strip_def lstrip_def rstrip_def isspace_def)
  have h1: "\<not> (\<exists>d \<in> set ''01234''. prefix [CHR ''['', d, CHR '']''] (strip ''boot complete ''))"
    and h2: "\<not> prefix ''*wm'' (strip ''boot complete '')"
    by (simp_all add: s)
  from catch_all_message [OF h1 h2, of "\<lparr>year = 2024, month = 5, day = 17, hour = 9, minute = 3, second = 7,
       microsecond = 123456\<rparr>" None None]
  show ?thesis using h1 h2 by (simp add: s)
qed

text \<open>
  C3, as stated: marker matching is anchored to the start of the input line. The
  constructor trims the line before matching, so in the line that consists of a space
  and \<open>[2] x\<close> the marker, which does not start the input line, is matched.
\<close>

theorem marker_after_blank_counterexample:
  "\<not> prefix ''[2]'' '' [2] x'' \<and>
   parsed (LogEntry '' [2] x'' \<lparr>year = 2024, month = 5, day = 17, hour = 9, minute = 3, second = 7,
       microsecond = 123456\<rparr> None None) \<and>
   level (LogEntry '' [2] x'' \<lparr>year = 2024, month = 5, day = 17, hour = 9, minute = 3, second = 7,
       microsecond = 123456\<rparr> None None) = Some ''2'' \<and>
   message (LogEntry '' [2] x'' \<lparr>year = 2024, month = 5, day = 17, hour = 9, minute = 3, second = 7,
       microsecond = 123456\<rparr> None None) = Some ''x''"
  by (simp add: classify_defs)

text \<open>
  C3, amended: for every input line, marker matching is anchored to the start of the
  trimmed line only: the entry is recognized exactly when the trimmed line starts
  with \<open>[d]\<close> (\<open>d\<close> from 0 to 4) or with \<open>*wm\<close>, so a marker that follows any other
  text is never matched; matching is exact and case-sensitive (the category is a digit
  or \<open>wm\<close> exactly when those very characters start the trimmed line); and a line that
  is empty after trimming still produces an entry, whose message is the empty string.
\<close>

theorem marker_anchored_at_start:
  "(parsed (LogEntry line ts lvl msg) \<longleftrightarrow>
      (\<exists>d \<in> set ''01234''. prefix [CHR ''['', d, CHR '']''] (strip line)) \<or>
      prefix ''*wm'' (strip line)) \<and>
   (d \<in> set ''01234'' \<longrightarrow>
      (level (LogEntry line ts lvl msg) = Some [d] \<longleftrightarrow>
         prefix [CHR ''['', d, CHR '']''] (strip line))) \<and>
   (level (LogEntry line ts lvl msg) = Some ''wm'' \<longleftrightarrow> prefix ''*wm'' (strip line)) \<and>
   (strip line = [] \<longrightarrow>
      message (LogEntry line ts lvl msg) = Some [] \<and>
      raw_data (LogEntry line ts lvl msg) = [] \<and>
      level (LogEntry line ts lvl msg) = Some ''verbose'')"
proof -
  let ?t = "strip line"
  let ?e = "LogEntry line ts lvl msg"
  consider (lev) c rest where "?t = CHR ''['' # c # CHR '']'' # rest" "c \<in> set ''01234''"
    | (wm) rest where "?t = CHR ''*'' # CHR ''w'' # CHR ''m'' # rest"
    | (gen) "\<not> (\<exists>d \<in> set ''01234''. prefix [CHR ''['', d, CHR '']''] ?t)" "\<not> prefix ''*wm'' ?t"
    by (auto simp: prefix_def)
  then show ?thesis
  proof cases
    case lev
    from LogEntry_level_marker [OF lev, of ts lvl msg] lev show ?thesis
      by auto
  next
    case wm
    from LogEntry_wm_marker [OF wm, of ts lvl msg] wm show ?thesis
      by auto
  next
    case gen
    from LogEntry_generic [OF gen, of ts lvl msg] gen show ?thesis
      by auto
  qed
qed

theorem marker_anchored_at_start_witness:
  "strip ''   '' = [] \<and>
   message (LogEntry ''   '' \<lparr>year = 2024, month = 5, day = 17, hour = 9, minute = 3, second = 7,
       microsecond = 123456\<rparr> None None) = Some [] \<and>
   \<not> parsed (LogEntry ''boot [2] x'' \<lparr>year = 2024, month = 5, day = 17, hour = 9, minute = 3, second = 7,
       microsecond = 123456\<rparr> None None) \<and>
   level (LogEntry ''boot *wm x'' \<lparr>year = 2024, month = 5, day = 17, hour = 9, minute = 3, second = 7,
       microsecond = 123456\<rparr> None None) \<noteq> Some ''wm'' \<and>
   level (LogEntry ''*WM x'' \<lparr>year = 2024, month = 5, day = 17, hour = 9, minute = 3, second = 7,
       microsecond = 123456\<rparr> None None) \<noteq> Some ''wm'' \<and>
   CHR ''2'' \<in> set ''01234'' \<and>
   level (LogEntry ''[2]x'' \<lparr>year = 2024, month = 5, day = 17, hour = 9, minute = 3, second = 7,
       microsecond = 123456\<rparr> None None) = Some ''2''"
proof -
  have s: "strip ''   '' = []" "strip ''boot [2] x'' = ''boot [2] x''"
    "strip ''boot *wm x'' = ''boot *wm x''" "strip ''*WM x'' = ''*WM x''"
    "strip ''[2]x'' = ''[2]x''"
    by (simp_all add: strip_def lstrip_def rstrip_def isspace_def)
  have d: "CHR ''2'' \<in> set ''01234''" by simp
  have "message (LogEntry ''   '' \<lparr>year = 2024, month = 5, day = 17, hour = 9, minute = 3, second = 7,
       microsecond = 123456\<rparr> None None) = Some []"
    using marker_anchored_at_start [where line = "''   ''" and ts = "\<lparr>year = 2024, month = 5, day = 17, hour = 9, minute = 3, second = 7,
       microsecond = 123456\<rparr>" and lvl = None
        and msg = None] s(1)
    by blast
  moreover have "\<not> parsed (LogEntry ''boot [2] x'' \<lparr>year = 2024, month = 5, day = 17, hour = 9, minute = 3, second = 7,
       microsecond = 123456\<rparr> None None)"
    using marker_anchored_at_start [where line = "''boot [2] x''" and ts = "\<lparr>year = 2024, month = 5, day = 17, hour = 9, minute = 3, second = 7,
       microsecond = 123456\<rparr>" and lvl = None
        and msg = None]
    by (simp add: s)
  moreover have "level (LogEntry ''boot *wm x'' \<lparr>year = 2024, month = 5, day = 17, hour = 9, minute = 3, second = 7,
       microsecond = 123456\<rparr> None None) \<noteq> Some ''wm''"
    using marker_anchored_at_start [where line = "''boot *wm x''" and ts = "\<lparr>year = 2024, month = 5, day = 17, hour = 9, minute = 3, second = 7,
       microsecond = 123456\<rparr>" and lvl = None
        and msg = None]
    by (simp add: s)
  moreover have "level (LogEntry ''*WM x'' \<lparr>year = 2024, month = 5, day = 17, hour = 9, minute = 3, second = 7,
       microsecond = 123456\<rparr> None None) \<noteq> Some ''wm''"
    using marker_anchored_at_start [where line = "''*WM x''" and ts = "\<lparr>year = 2024, month = 5, day = 17, hour = 9, minute = 3, second = 7,
       microsecond = 123456\<rparr>" and lvl = None
        and msg = None]
    by (simp add: s)
  moreover have "level (LogEntry ''[2]x'' \<lparr>year = 2024, month = 5, day = 17, hour = 9, minute = 3, second = 7,
       microsecond = 123456\<rparr> None None) = Some ''2''"
    using marker_anchored_at_start [where line = "''[2]x''" and d = "CHR ''2''" and ts = "\<lparr>year = 2024, month = 5, day = 17, hour = 9, minute = 3, second = 7,
       microsecond = 123456\<rparr>"
        and lvl = None and msg = None]
    by (simp add: s)
  ultimately show ?thesis
    using s(1) d by blast
qed

text \<open>
  C10: the category, the message and the \<open>parsed\<close> flag of a constructed entry are
  determined by the raw text alone: the \<open>level\<close> and \<open>message\<close> arguments of the
  constructor are overwritten by the parse step. The echo of a sent line, built from
  \<open>>> \<close> and the data with \<open>level='2'\<close>, is in the catch-all category (GENERIC), not
  INFO, and that is the entry \<open>send_data\<close> appends to the store.
\<close>

theorem constructor_arguments_overwritten:
  "LogEntry raw ts lvl msg = LogEntry raw ts None None \<and>
   level (LogEntry (''>> '' @ data) ts (Some ''2'') msg) = Some ''verbose'' \<and>
   message (LogEntry (''>> '' @ data) ts (Some ''2'') msg) = Some (strip (''>> '' @ data)) \<and>
   parsed (LogEntry (''>> '' @ data) ts (Some ''2'') msg) = False \<and>
   get_level_name (LogEntry (''>> '' @ data) ts (Some ''2'') msg) = ''GENERIC'' \<and>
   send_data m data sent ts =
     (if connected m \<and> data \<noteq> [] \<and> sent
      then m\<lparr>log_display :=
               add_log_entry (log_display m)
                 \<lparr>raw_data = strip (''>> '' @ data), timestamp = ts, level = Some ''verbose'',
                  message = Some (strip (''>> '' @ data)), parsed = False\<rparr>\<rparr>
      else m)"
proof -
  have "LogEntry raw ts lvl msg = LogEntry raw ts None None"
    unfolding LogEntry_def
    using parse_log_overwrites
      [where e = "\<lparr>raw_data = strip raw, timestamp = ts, level = None, message = None,
                    parsed = False\<rparr>"
         and lvl = lvl and msg = msg and lvl' = None and msg' = None]
    by simp
  moreover have "get_level_name (LogEntry (''>> '' @ data) ts (Some ''2'') msg) = ''GENERIC''"
    by (simp add: LogEntry_echo get_level_name_def level_entry_def LOG_LEVELS_def)
  moreover have "send_data m data sent ts =
     (if connected m \<and> data \<noteq> [] \<and> sent
      then m\<lparr>log_display :=
               add_log_entry (log_display m)
                 \<lparr>raw_data = strip (''>> '' @ data), timestamp = ts, level = Some ''verbose'',
                  message = Some (strip (''>> '' @ data)), parsed = False\<rparr>\<rparr>
      else m)"
    by (simp add: send_data_def LogEntry_echo)
  ultimately show ?thesis
    by (simp add: LogEntry_echo)
qed

theorem constructor_arguments_overwritten_witness:
  "level (LogEntry ''>> data'' \<lparr>year = 2024, month = 5, day = 17, hour = 9, minute = 3, second = 7,
       microsecond = 123456\<rparr> (Some ''2'') None) = Some ''verbose'' \<and>
   get_level_name (LogEntry ''>> data'' \<lparr>year = 2024, month = 5, day = 17, hour = 9, minute = 3, second = 7,
       microsecond = 123456\<rparr> (Some ''2'') None) = ''GENERIC''"
proof -
  have "level (LogEntry (''>> '' @ ''data'') \<lparr>year = 2024, month = 5, day = 17, hour = 9, minute = 3, second = 7,
       microsecond = 123456\<rparr> (Some ''2'') None) = Some ''verbose'' \<and>
        get_level_name (LogEntry (''>> '' @ ''data'') \<lparr>year = 2024, month = 5, day = 17, hour = 9, minute = 3, second = 7,
       microsecond = 123456\<rparr> (Some ''2'') None) = ''GENERIC''"
    using constructor_arguments_overwritten [where data = "''data''" and msg = None]
    by blast
  then show ?thesis by simp
qed

section \<open>Properties of the level registry\<close>

text \<open>
  C9: for every category string, inside the seven-member vocabulary or not, and also
  for a missing category, the lookups of the display name and of the colour return a
  value: the registered one for a member of the vocabulary, the default \<open>UNKNOWN\<close> or
  \<open>#FFFFFF\<close> otherwise. Both lookups are \<open>dict.get\<close> with a default, which never raises.
\<close>

theorem level_registry_total:
  "get_level_name (e\<lparr>level := Some l\<rparr>) =
     (if l = ''0'' then ''ERROR'' else if l = ''1'' then ''WARN''
      else if l = ''2'' then ''INFO'' else if l = ''3'' then ''DEBUG''
      else if l = ''4'' then ''VERBOSE'' else if l = ''wm'' then ''WIFIMANAGER''
      else if l = ''verbose'' then ''GENERIC'' else ''UNKNOWN'') \<and>
   get_level_color (e\<lparr>level := Some l\<rparr>) =
     (if l = ''0'' then ''#FF4444'' else if l = ''1'' then ''#FFA500''
      else if l = ''2'' then ''#00AAFF'' else if l = ''3'' then ''#00FF88''
      else if l = ''4'' then ''#888888'' else if l = ''wm'' then ''#FF00FF''
      else if l = ''verbose'' then ''#CCCCCC'' else ''#FFFFFF'') \<and>
   get_level_name (e\<lparr>level := None\<rparr>) = ''UNKNOWN'' \<and>
   get_level_color (e\<lparr>level := None\<rparr>) = ''#FFFFFF''"
  by (simp add: get_level_name_def get_level_color_def level_entry_def LOG_LEVELS_def)

theorem level_registry_total_witness:
  "get_level_name
     \<lparr>raw_data = ''x'', timestamp = \<lparr>year = 2024, month = 5, day = 17, hour = 9, minute = 3, second = 7,
       microsecond = 123456\<rparr>, level = Some ''fatal'', message = Some ''x'',
      parsed = False\<rparr> = ''UNKNOWN'' \<and>
   get_level_color
     \<lparr>raw_data = ''x'', timestamp = \<lparr>year = 2024, month = 5, day = 17, hour = 9, minute = 3, second = 7,
       microsecond = 123456\<rparr>, level = Some ''fatal'', message = Some ''x'',
      parsed = False\<rparr> = ''#FFFFFF'' \<and>
   get_level_name
     \<lparr>raw_data = ''x'', timestamp = \<lparr>year = 2024, month = 5, day = 17, hour = 9, minute = 3, second = 7,
       microsecond = 123456\<rparr>, level = Some ''wm'', message = Some ''x'',
      parsed = True\<rparr> = ''WIFIMANAGER''"
  using level_registry_total
      [where e = "\<lparr>raw_data = ''x'', timestamp = \<lparr>year = 2024, month = 5, day = 17, hour = 9, minute = 3, second = 7,
       microsecond = 123456\<rparr>, level = None, message = Some ''x'',
                    parsed = False\<rparr>" and l = "''fatal''"]
    level_registry_total
      [where e = "\<lparr>raw_data = ''x'', timestamp = \<lparr>year = 2024, month = 5, day = 17, hour = 9, minute = 3, second = 7,
       microsecond = 123456\<rparr>, level = None, message = Some ''x'',
                    parsed = True\<rparr>" and l = "''wm''"]
  by simp

section \<open>Properties of the filter view\<close>

lemma filter_loop_eq: "filter_loop fs acc es = acc @ filter (passes_filter fs) es"
  by (induction es arbitrary: acc) simp_all

lemma filtered_entries_apply_filters:
  "filtered_entries (apply_filters w) = filter (passes_filter (level_filter w)) (log_entries w)"
  by (simp add: apply_filters_def filter_loop_eq)

lemma log_entries_apply_filters [simp]: "log_entries (apply_filters w) = log_entries w"
  by (simp add: apply_filters_def)

lemma max_lines_apply_filters [simp]: "max_lines (apply_filters w) = max_lines w"
  by (simp add: apply_filters_def)

lemma level_idx_less_7: "level_idx e < 7"
  by (auto simp: level_idx_def level_map_def split: option.splits if_splits)

lemma level_idx_priority: "level_entry e = Some i \<Longrightarrow> level_idx e = priority i"
  by (auto simp: level_entry_def level_idx_def level_map_def LOG_LEVELS_def
           split: option.splits if_splits)

text \<open>
  C6: for every store and every filter set of seven booleans, the filter view holds
  exactly the stored entries for which the boolean at the ordinal (the registry's
  \<open>priority\<close>) of the entry's category is true, in their original order; the result is
  a function of the stored entries and the filter set alone. The entries are those
  with a category of the vocabulary, as every constructed entry has.
\<close>

theorem filter_view_membership:
  assumes "length fs = 7"
    and "\<forall>e \<in> set (log_entries w). level_entry e \<noteq> None"
  shows "filtered_entries (set_level_filter w fs) =
           filter (\<lambda>e. fs ! priority (the (level_entry e))) (log_entries w) \<and>
         (x \<in> set (filtered_entries (set_level_filter w fs)) \<longleftrightarrow>
            x \<in> set (log_entries w) \<and> fs ! priority (the (level_entry x))) \<and>
         level_entry (LogEntry raw ts lvl msg) \<noteq> None"
proof -
  have "passes_filter fs e = fs ! priority (the (level_entry e))"
    if "e \<in> set (log_entries w)" for e
  proof -
    from that assms(2) obtain i where i: "level_entry e = Some i" by auto
    then have "level_idx e = priority i" by (rule level_idx_priority)
    with i assms(1) level_idx_less_7 [of e] show ?thesis
      by (simp add: passes_filter_def)
  qed
  then have "filtered_entries (set_level_filter w fs) =
           filter (\<lambda>e. fs ! priority (the (level_entry e))) (log_entries w)"
    by (simp add: set_level_filter_def filtered_entries_apply_filters cong: filter_cong)
  then show ?thesis by (simp add: LogEntry_level_registered)
qed

theorem filter_view_membership_witness:
  "length [False, True, True, True, True, True, False] = 7 \<and>
   level_entry (LogEntry ''[0] fail'' \<lparr>year = 2024, month = 5, day = 17, hour = 9, minute = 3, second = 7,
       microsecond = 123456\<rparr> None None) \<noteq> None \<and>
   level_entry (LogEntry ''boot'' \<lparr>year = 2024, month = 5, day = 17, hour = 9, minute = 3, second = 7,
       microsecond = 123456\<rparr> None None) \<noteq> None \<and>
   level_entry (LogEntry ''*wm up'' \<lparr>year = 2024, month = 5, day = 17, hour = 9, minute = 3, second = 7,
       microsecond = 123456\<rparr> None None) \<noteq> None \<and>
   filtered_entries
     (set_level_filter
        \<lparr>log_entries = [LogEntry ''[0] fail'' \<lparr>year = 2024, month = 5, day = 17, hour = 9, minute = 3, second = 7,
       microsecond = 123456\<rparr> None None, LogEntry ''boot'' \<lparr>year = 2024, month = 5, day = 17, hour = 9, minute = 3, second = 7,
       microsecond = 123456\<rparr> None None,
                        LogEntry ''*wm up'' \<lparr>year = 2024, month = 5, day = 17, hour = 9, minute = 3, second = 7,
       microsecond = 123456\<rparr> None None],
         filtered_entries = [], level_filter = replicate 7 True, max_lines = 10000\<rparr>
        [False, True, True, True, True, True, False]) =
   [LogEntry ''*wm up'' \<lparr>year = 2024, month = 5, day = 17, hour = 9, minute = 3, second = 7,
       microsecond = 123456\<rparr> None None]"
proof -
  let ?w = "\<lparr>log_entries = [LogEntry ''[0] fail'' \<lparr>year = 2024, month = 5, day = 17, hour = 9, minute = 3, second = 7,
       microsecond = 123456\<rparr> None None, LogEntry ''boot'' \<lparr>year = 2024, month = 5, day = 17, hour = 9, minute = 3, second = 7,
       microsecond = 123456\<rparr> None None,
                        LogEntry ''*wm up'' \<lparr>year = 2024, month = 5, day = 17, hour = 9, minute = 3, second = 7,
       microsecond = 123456\<rparr> None None],
         filtered_entries = [], level_filter = replicate 7 True, max_lines = 10000\<rparr>"
  have e: "level_entry (LogEntry ''[0] fail'' \<lparr>year = 2024, month = 5, day = 17, hour = 9, minute = 3, second = 7,
       microsecond = 123456\<rparr> None None) =
             Some \<lparr>name = ''ERROR'', color = ''#FF4444'', priority = 0\<rparr>"
    "level_entry (LogEntry ''boot'' \<lparr>year = 2024, month = 5, day = 17, hour = 9, minute = 3, second = 7,
       microsecond = 123456\<rparr> None None) =
             Some \<lparr>name = ''GENERIC'', color = ''#CCCCCC'', priority = 6\<rparr>"
    "level_entry (LogEntry ''*wm up'' \<lparr>year = 2024, month = 5, day = 17, hour = 9, minute = 3, second = 7,
       microsecond = 123456\<rparr> None None) =
             Some \<lparr>name = ''WIFIMANAGER'', color = ''#FF00FF'', priority = 5\<rparr>"
    by (simp_all add: classify_defs level_entry_def LOG_LEVELS_def)
  have h1: "length [False, True, True, True, True, True, False] = 7" by simp
  have h2: "\<forall>e \<in> set (log_entries ?w). level_entry e \<noteq> None"
    by (simp add: e)
  from filter_view_membership [OF h1 h2]
  have "filtered_entries (set_level_filter ?w [False, True, True, True, True, True, False]) =
        filter (\<lambda>e. [False, True, True, True, True, True, False] ! priority (the (level_entry e)))
          (log_entries ?w)"
    by blast
  then show ?thesis
    by (simp add: e)
qed

text \<open>
  C7: for every store, the filter view is a subsequence of the stored entries, in
  their order; with the all-true filter set it is the whole store, with the all-false
  filter set it is empty.
\<close>

theorem filter_view_subsequence:
  "subseq (filtered_entries (set_level_filter w fs)) (log_entries w) \<and>
   filtered_entries (set_level_filter w (replicate 7 True)) = log_entries w \<and>
   filtered_entries (set_level_filter w (replicate 7 False)) = []"
proof -
  have "passes_filter (replicate 7 True) e" for e
    using level_idx_less_7 [of e] by (simp add: passes_filter_def)
  moreover have "\<not> passes_filter (replicate 7 False) e" for e
    using level_idx_less_7 [of e] by (simp add: passes_filter_def)
  ultimately show ?thesis
    by (simp add: set_level_filter_def filtered_entries_apply_filters)
qed

theorem filter_view_subsequence_witness:
  "filtered_entries
     (set_level_filter
        \<lparr>log_entries = [LogEntry ''[0] fail'' \<lparr>year = 2024, month = 5, day = 17, hour = 9, minute = 3, second = 7,
       microsecond = 123456\<rparr> None None, LogEntry ''boot'' \<lparr>year = 2024, month = 5, day = 17, hour = 9, minute = 3, second = 7,
       microsecond = 123456\<rparr> None None],
         filtered_entries = [], level_filter = replicate 7 False, max_lines = 10000\<rparr>
        (replicate 7 True)) =
   [LogEntry ''[0] fail'' \<lparr>year = 2024, month = 5, day = 17, hour = 9, minute = 3, second = 7,
       microsecond = 123456\<rparr> None None, LogEntry ''boot'' \<lparr>year = 2024, month = 5, day = 17, hour = 9, minute = 3, second = 7,
       microsecond = 123456\<rparr> None None] \<and>
   filtered_entries
     (set_level_filter
        \<lparr>log_entries = [LogEntry ''[0] fail'' \<lparr>year = 2024, month = 5, day = 17, hour = 9, minute = 3, second = 7,
       microsecond = 123456\<rparr> None None, LogEntry ''boot'' \<lparr>year = 2024, month = 5, day = 17, hour = 9, minute = 3, second = 7,
       microsecond = 123456\<rparr> None None],
         filtered_entries = [], level_filter = replicate 7 False, max_lines = 10000\<rparr>
        (replicate 7 False)) = []"
  using filter_view_subsequence
    [where w = "\<lparr>log_entries = [LogEntry ''[0] fail'' \<lparr>year = 2024, month = 5, day = 17, hour = 9, minute = 3, second = 7,
       microsecond = 123456\<rparr> None None,
                                  LogEntry ''boot'' \<lparr>year = 2024, month = 5, day = 17, hour = 9, minute = 3, second = 7,
       microsecond = 123456\<rparr> None None],
         filtered_entries = [], level_filter = replicate 7 False, max_lines = 10000\<rparr>"]
  by simp

section \<open>Properties of the entry store\<close>

lemma suffix_slice_last: "suffix (slice_last n xs) xs"
  by (simp add: slice_last_def suffix_drop)

lemma slice_last_pos: "0 < n \<Longrightarrow> slice_last n xs = drop (length xs - nat n) xs"
  by (simp add: slice_last_def)

lemma log_entries_add_log_entry:
  "0 < max_lines w \<Longrightarrow>
   log_entries (add_log_entry w e) =
     drop (Suc (length (log_entries w)) - nat (max_lines w)) (log_entries w @ [e])"
  by (auto simp: add_log_entry_def Let_def slice_last_pos)

lemma max_lines_add_log_entry [simp]: "max_lines (add_log_entry w e) = max_lines w"
  by (simp add: add_log_entry_def Let_def)

lemma suffix_add_log_entry: "suffix (log_entries (add_log_entry w e)) (log_entries w @ [e])"
proof -
  have "log_entries (add_log_entry w e) = slice_last (max_lines w) (log_entries w @ [e]) \<or>
        log_entries (add_log_entry w e) = log_entries w @ [e]"
    by (simp add: add_log_entry_def Let_def)
  then show ?thesis
    by (metis suffix_slice_last suffix_order.refl)
qed

lemma drop_last_step:
  assumes "0 < M" and "length xs \<le> M"
  shows "drop (length (drop (Suc (length xs) - M) (xs @ [e])) + length es - M)
           (drop (Suc (length xs) - M) (xs @ [e]) @ es) =
         drop (length xs + Suc (length es) - M) (xs @ e # es)"
proof (cases "length xs < M")
  case True
  then show ?thesis by simp
next
  case False
  with assms have eq: "length xs = M" by simp
  with assms(1) obtain x xs' where xs: "xs = x # xs'" by (cases xs) auto
  with eq show ?thesis by auto
qed

lemma log_entries_foldl:
  assumes "0 < max_lines w" and "int (length (log_entries w)) \<le> max_lines w"
  shows "log_entries (foldl add_log_entry w es) =
           drop (length (log_entries w) + length es - nat (max_lines w)) (log_entries w @ es)"
  using assms
proof (induction es arbitrary: w)
  case Nil
  then show ?case by simp
next
  case (Cons e es)
  let ?w = "add_log_entry w e"
  let ?M = "nat (max_lines w)"
  have M: "0 < ?M" "length (log_entries w) \<le> ?M"
    using Cons.prems by simp_all
  have le: "log_entries ?w = drop (Suc (length (log_entries w)) - ?M) (log_entries w @ [e])"
    using Cons.prems(1) by (rule log_entries_add_log_entry)
  have len: "int (length (log_entries ?w)) \<le> max_lines ?w"
    using Cons.prems by (simp add: le)
  have "log_entries (foldl add_log_entry ?w es) =
          drop (length (log_entries ?w) + length es - nat (max_lines ?w)) (log_entries ?w @ es)"
    using Cons.prems(1) len by (intro Cons.IH) simp_all
  also have "\<dots> = drop (length (log_entries w) + Suc (length es) - ?M) (log_entries w @ e # es)"
    unfolding le max_lines_add_log_entry by (rule drop_last_step [OF M])
  finally show ?case by simp
qed

lemma size_check_iff:
  "((of_nat n :: rat) / 1024 > of_int (mb * 1024)) = (int n > mb * 1024 * 1024)"
proof -
  have "((of_nat n :: rat) / 1024 > of_int (mb * 1024)) =
        ((of_int (mb * 1024) :: rat) * 1024 < of_nat n)"
    by (simp add: pos_less_divide_eq)
  also have "\<dots> = ((of_int (mb * 1024 * 1024) :: rat) < of_int (int n))"
    by simp
  also have "\<dots> = (mb * 1024 * 1024 < int n)"
    by (simp only: of_int_less_iff)
  finally show ?thesis .
qed

lemma update_statistics_eq:
  "update_statistics m =
     (if int (total_size (log_entries (log_display m))) > log_file_size_mb m * 1024 * 1024
      then trim_logs m else m)"
  unfolding update_statistics_def Let_def size_check_iff by (rule refl)

lemma log_entries_trim_logs:
  "log_entries (log_display (trim_logs m)) =
     (if length (log_entries (log_display m)) > 1000
      then drop (length (log_entries (log_display m)) - 1000) (log_entries (log_display m))
      else log_entries (log_display m))"
  by (simp add: trim_logs_def Let_def slice_last_pos)

lemma trim_logs_small: "length (log_entries (log_display m)) \<le> 1000 \<Longrightarrow> trim_logs m = m"
  by (simp add: trim_logs_def Let_def)

lemma rstrip_snoc_nonspace: "\<not> isspace c \<Longrightarrow> rstrip (s @ [c]) = s @ [c]"
  by (simp add: rstrip_def)

lemma LogEntry_level2_run:
  assumes "0 < n"
  shows "LogEntry (''[2] '' @ replicate n CHR ''x'') ts lvl msg =
     \<lparr>raw_data = ''[2] '' @ replicate n CHR ''x'', timestamp = ts, level = Some ''2'',
      message = Some (replicate n CHR ''x''), parsed = True\<rparr>"
proof -
  from assms obtain k where n: "n = Suc k" by (cases n) auto
  have x: "\<not> isspace CHR ''x''" and b: "\<not> isspace CHR ''[''" and sp: "isspace CHR '' ''"
    by (simp_all add: isspace_def)
  have r: "replicate n CHR ''x'' = replicate k CHR ''x'' @ ''x''"
    unfolding n by (simp add: replicate_append_same)
  have "rstrip (''[2] '' @ replicate n CHR ''x'') = ''[2] '' @ replicate n CHR ''x''"
    using rstrip_snoc_nonspace [OF x, of "''[2] '' @ replicate k CHR ''x''"] by (simp add: r)
  then have s: "strip (''[2] '' @ replicate n CHR ''x'') =
      CHR ''['' # CHR ''2'' # CHR '']'' # ('' '' @ replicate n CHR ''x'')"
    using b by (simp add: strip_def lstrip_def)
  have l: "lstrip ('' '' @ replicate n CHR ''x'') = replicate n CHR ''x''"
    using sp x by (simp add: lstrip_def n)
  have d: "dot_star (replicate n CHR ''x'') = replicate n CHR ''x''"
    by (rule dot_star_no_newline) (simp add: newline_def)
  show ?thesis
    using LogEntry_level_marker [OF s, of ts lvl msg] s l d by simp
qed

text \<open>
  C4: with a positive \<open>max_lines\<close> (the settings dialog offers 1000 to 100000), after
  any append the store holds at most \<open>max_lines\<close> entries, and what it holds is the end
  of the old store followed by the new entry: eviction removes only the oldest
  entries. Appending a sequence to a store within the bound, the empty one in
  particular, leaves the last \<open>max_lines\<close> entries in their order; 1001 appends with
  \<open>max_lines = 1000\<close> leave exactly the last 1000 entries.
\<close>

theorem store_bounded_by_max_lines:
  assumes "0 < max_lines w"
  shows "int (length (log_entries (add_log_entry w e))) \<le> max_lines w \<and>
         suffix (log_entries (add_log_entry w e)) (log_entries w @ [e]) \<and>
         log_entries (add_log_entry w e) =
           drop (Suc (length (log_entries w)) - nat (max_lines w)) (log_entries w @ [e]) \<and>
         (int (length (log_entries w)) \<le> max_lines w \<longrightarrow>
            log_entries (foldl add_log_entry w es) =
              drop (length (log_entries w) + length es - nat (max_lines w))
                (log_entries w @ es) \<and>
            int (length (log_entries (foldl add_log_entry w es))) \<le> max_lines w) \<and>
         (log_entries w = [] \<and> max_lines w = 1000 \<and> length es = 1001 \<longrightarrow>
            log_entries (foldl add_log_entry w es) = tl es \<and>
            length (log_entries (foldl add_log_entry w es)) = 1000)"
proof (intro conjI impI)
  show one: "log_entries (add_log_entry w e) =
           drop (Suc (length (log_entries w)) - nat (max_lines w)) (log_entries w @ [e])"
    using assms by (rule log_entries_add_log_entry)
  show "int (length (log_entries (add_log_entry w e))) \<le> max_lines w"
    using assms by (simp add: one)
  show "suffix (log_entries (add_log_entry w e)) (log_entries w @ [e])"
    by (rule suffix_add_log_entry)
next
  assume "int (length (log_entries w)) \<le> max_lines w"
  with assms show many: "log_entries (foldl add_log_entry w es) =
              drop (length (log_entries w) + length es - nat (max_lines w))
                (log_entries w @ es)"
    by (rule log_entries_foldl)
  show "int (length (log_entries (foldl add_log_entry w es))) \<le> max_lines w"
    using assms by (simp add: many)
next
  assume a: "log_entries w = [] \<and> max_lines w = 1000 \<and> length es = 1001"
  then have "log_entries (foldl add_log_entry w es) =
              drop (length (log_entries w) + length es - nat (max_lines w))
                (log_entries w @ es)"
    by (intro log_entries_foldl) simp_all
  with a show "log_entries (foldl add_log_entry w es) = tl es"
    by (simp add: drop_Suc)
  with a show "length (log_entries (foldl add_log_entry w es)) = 1000"
    by simp
qed

theorem store_bounded_by_max_lines_witness:
  "(0::int) < max_lines
      \<lparr>log_entries = [], filtered_entries = [], level_filter = replicate 7 True,
       max_lines = 2\<rparr> \<and>
   log_entries
     (foldl add_log_entry
        \<lparr>log_entries = [], filtered_entries = [], level_filter = replicate 7 True,
         max_lines = 2\<rparr>
        [LogEntry ''[0] a'' \<lparr>year = 2024, month = 5, day = 17, hour = 9, minute = 3, second = 7,
       microsecond = 123456\<rparr> None None, LogEntry ''b'' \<lparr>year = 2024, month = 5, day = 17, hour = 9, minute = 3, second = 7,
       microsecond = 123456\<rparr> None None,
         LogEntry ''*wm c'' \<lparr>year = 2024, month = 5, day = 17, hour = 9, minute = 3, second = 7,
       microsecond = 123456\<rparr> None None]) =
   [LogEntry ''b'' \<lparr>year = 2024, month = 5, day = 17, hour = 9, minute = 3, second = 7,
       microsecond = 123456\<rparr> None None, LogEntry ''*wm c'' \<lparr>year = 2024, month = 5, day = 17, hour = 9, minute = 3, second = 7,
       microsecond = 123456\<rparr> None None]"
proof -
  let ?w = "\<lparr>log_entries = [], filtered_entries = [], level_filter = replicate 7 True,
         max_lines = 2\<rparr>"
  have h: "0 < max_lines ?w" by simp
  from store_bounded_by_max_lines [OF h,
      where es = "[LogEntry ''[0] a'' \<lparr>year = 2024, month = 5, day = 17, hour = 9, minute = 3, second = 7,
       microsecond = 123456\<rparr> None None, LogEntry ''b'' \<lparr>year = 2024, month = 5, day = 17, hour = 9, minute = 3, second = 7,
       microsecond = 123456\<rparr> None None,
         LogEntry ''*wm c'' \<lparr>year = 2024, month = 5, day = 17, hour = 9, minute = 3, second = 7,
       microsecond = 123456\<rparr> None None]"]
  have "log_entries (foldl add_log_entry ?w
          [LogEntry ''[0] a'' \<lparr>year = 2024, month = 5, day = 17, hour = 9, minute = 3, second = 7,
       microsecond = 123456\<rparr> None None, LogEntry ''b'' \<lparr>year = 2024, month = 5, day = 17, hour = 9, minute = 3, second = 7,
       microsecond = 123456\<rparr> None None,
           LogEntry ''*wm c'' \<lparr>year = 2024, month = 5, day = 17, hour = 9, minute = 3, second = 7,
       microsecond = 123456\<rparr> None None]) =
        drop (length (log_entries ?w) + 3 - nat (max_lines ?w))
          (log_entries ?w @ [LogEntry ''[0] a'' \<lparr>year = 2024, month = 5, day = 17, hour = 9, minute = 3, second = 7,
       microsecond = 123456\<rparr> None None, LogEntry ''b'' \<lparr>year = 2024, month = 5, day = 17, hour = 9, minute = 3, second = 7,
       microsecond = 123456\<rparr> None None,
           LogEntry ''*wm c'' \<lparr>year = 2024, month = 5, day = 17, hour = 9, minute = 3, second = 7,
       microsecond = 123456\<rparr> None None])"
    by simp
  then show ?thesis by simp
qed

text \<open>
  C5: the size check sums \<open>len(raw_data)\<close>, the length of the stored raw text, over
  all entries of the store. When that sum exceeds the configured ceiling of
  \<open>log_file_size_mb\<close> megabytes and the store holds more than 1000 entries, the store
  becomes exactly its 1000 most recent entries; when the store holds 1000 entries or
  fewer, or the sum does not exceed the ceiling, the check changes nothing. After the
  size check and after the count trim of an append the store is an end piece of what
  it was: entries go oldest first, and the entries that stay are unchanged and in
  their order.
\<close>

theorem size_trim_keeps_recent:
  "(int (sum_list (map (\<lambda>e. length (raw_data e)) (log_entries (log_display m)))) >
      log_file_size_mb m * 1024 * 1024 \<and>
    length (log_entries (log_display m)) > 1000 \<longrightarrow>
      log_entries (log_display (update_statistics m)) =
        drop (length (log_entries (log_display m)) - 1000) (log_entries (log_display m)) \<and>
      length (log_entries (log_display (update_statistics m))) = 1000) \<and>
   (length (log_entries (log_display m)) \<le> 1000 \<longrightarrow> update_statistics m = m) \<and>
   (int (sum_list (map (\<lambda>e. length (raw_data e)) (log_entries (log_display m)))) \<le>
      log_file_size_mb m * 1024 * 1024 \<longrightarrow>
      update_statistics m = m) \<and>
   suffix (log_entries (log_display (update_statistics m))) (log_entries (log_display m)) \<and>
   suffix (log_entries (add_log_entry w e)) (log_entries w @ [e])"
proof (intro conjI impI)
  assume "int (sum_list (map (\<lambda>e. length (raw_data e)) (log_entries (log_display m)))) >
      log_file_size_mb m * 1024 * 1024 \<and>
    length (log_entries (log_display m)) > 1000"
  then show "log_entries (log_display (update_statistics m)) =
        drop (length (log_entries (log_display m)) - 1000) (log_entries (log_display m))"
    and "length (log_entries (log_display (update_statistics m))) = 1000"
    by (simp_all add: update_statistics_eq log_entries_trim_logs total_size_def)
next
  assume "length (log_entries (log_display m)) \<le> 1000"
  then show "update_statistics m = m"
    by (simp add: update_statistics_eq trim_logs_small)
next
  assume "int (sum_list (map (\<lambda>e. length (raw_data e)) (log_entries (log_display m)))) \<le>
      log_file_size_mb m * 1024 * 1024"
  then show "update_statistics m = m"
    by (simp add: update_statistics_eq total_size_def)
next
  show "suffix (log_entries (log_display (update_statistics m))) (log_entries (log_display m))"
    by (simp add: update_statistics_eq log_entries_trim_logs suffix_drop)
next
  show "suffix (log_entries (add_log_entry w e)) (log_entries w @ [e])"
    by (rule suffix_add_log_entry)
qed

theorem size_trim_keeps_recent_witness:
  "let ts = \<lparr>year = 2024, month = 5, day = 17, hour = 9, minute = 3, second = 7,
             microsecond = 123456\<rparr>;
       oldest = LogEntry ''[0] first'' ts None None;
       mid = LogEntry (''[2] '' @ replicate 1047 CHR ''x'') ts None None;
       newest = LogEntry ''*wm last'' ts None None;
       big = \<lparr>log_display =
                \<lparr>log_entries = oldest # replicate 999 mid @ [newest], filtered_entries = [],
                 level_filter = replicate 7 True, max_lines = 10000\<rparr>,
              log_file_size_mb = 1, connected = True\<rparr>;
       quiet = \<lparr>log_display =
                \<lparr>log_entries = oldest # replicate 1000 newest, filtered_entries = [],
                 level_filter = replicate 7 True, max_lines = 10000\<rparr>,
              log_file_size_mb = 1, connected = True\<rparr>;
       small = \<lparr>log_display =
                \<lparr>log_entries = [oldest, mid, newest], filtered_entries = [],
                 level_filter = replicate 7 True, max_lines = 10000\<rparr>,
              log_file_size_mb = 0, connected = True\<rparr>
   in int (sum_list (map (\<lambda>e. length (raw_data e)) (log_entries (log_display big)))) >
        log_file_size_mb big * 1024 * 1024 \<and>
      int (sum_list (map (\<lambda>e. length (the (message e))) (log_entries (log_display big)))) <
        log_file_size_mb big * 1024 * 1024 \<and>
      length (log_entries (log_display big)) > 1000 \<and>
      log_entries (log_display (update_statistics big)) = replicate 999 mid @ [newest] \<and>
      oldest \<notin> set (log_entries (log_display (update_statistics big))) \<and>
      length (log_entries (log_display quiet)) > 1000 \<and>
      int (sum_list (map (\<lambda>e. length (raw_data e)) (log_entries (log_display quiet)))) \<le>
        log_file_size_mb quiet * 1024 * 1024 \<and>
      update_statistics quiet = quiet \<and>
      int (sum_list (map (\<lambda>e. length (raw_data e)) (log_entries (log_display small)))) >
        log_file_size_mb small * 1024 * 1024 \<and>
      length (log_entries (log_display small)) \<le> 1000 \<and>
      update_statistics small = small"
proof -
  let ?ts = "\<lparr>year = 2024, month = 5, day = 17, hour = 9, minute = 3, second = 7,
             microsecond = 123456\<rparr>"
  let ?oldest = "LogEntry ''[0] first'' ?ts None None"
  let ?mid = "LogEntry (''[2] '' @ replicate 1047 CHR ''x'') ?ts None None"
  let ?newest = "LogEntry ''*wm last'' ?ts None None"
  let ?big = "\<lparr>log_display =
                \<lparr>log_entries = ?oldest # replicate 999 ?mid @ [?newest], filtered_entries = [],
                 level_filter = replicate 7 True, max_lines = 10000\<rparr>,
              log_file_size_mb = 1, connected = True\<rparr>"
  let ?quiet = "\<lparr>log_display =
                \<lparr>log_entries = ?oldest # replicate 1000 ?newest, filtered_entries = [],
                 level_filter = replicate 7 True, max_lines = 10000\<rparr>,
              log_file_size_mb = 1, connected = True\<rparr>"
  let ?small = "\<lparr>log_display =
                \<lparr>log_entries = [?oldest, ?mid, ?newest], filtered_entries = [],
                 level_filter = replicate 7 True, max_lines = 10000\<rparr>,
              log_file_size_mb = 0, connected = True\<rparr>"
  have oldest: "?oldest = \<lparr>raw_data = ''[0] first'', timestamp = ?ts, level = Some ''0'',
      message = Some ''first'', parsed = True\<rparr>"
    and newest: "?newest = \<lparr>raw_data = ''*wm last'', timestamp = ?ts, level = Some ''wm'',
      message = Some ''last'', parsed = True\<rparr>"
    by (simp_all add: classify_defs)
  have mid: "?mid = \<lparr>raw_data = ''[2] '' @ replicate 1047 CHR ''x'', timestamp = ?ts,
      level = Some ''2'', message = Some (replicate 1047 CHR ''x''), parsed = True\<rparr>"
    by (rule LogEntry_level2_run) simp
  have b1: "int (sum_list (map (\<lambda>e. length (raw_data e)) (log_entries (log_display ?big)))) >
        log_file_size_mb ?big * 1024 * 1024"
    and b2: "int (sum_list (map (\<lambda>e. length (the (message e))) (log_entries (log_display ?big)))) <
        log_file_size_mb ?big * 1024 * 1024"
    and b3: "length (log_entries (log_display ?big)) > 1000"
    and q1: "length (log_entries (log_display ?quiet)) > 1000"
    and q2: "int (sum_list (map (\<lambda>e. length (raw_data e)) (log_entries (log_display ?quiet)))) \<le>
        log_file_size_mb ?quiet * 1024 * 1024"
    and s1: "int (sum_list (map (\<lambda>e. length (raw_data e)) (log_entries (log_display ?small)))) >
        log_file_size_mb ?small * 1024 * 1024"
    and s2: "length (log_entries (log_display ?small)) \<le> 1000"
    using oldest newest mid by (simp_all add: sum_list_replicate)
  from b1 b3 size_trim_keeps_recent [where m = ?big]
  have "log_entries (log_display (update_statistics ?big)) =
        drop (length (log_entries (log_display ?big)) - 1000) (log_entries (log_display ?big))"
    by blast
  then have b4: "log_entries (log_display (update_statistics ?big)) = replicate 999 ?mid @ [?newest]"
    by simp
  have b5: "?oldest \<notin> set (log_entries (log_display (update_statistics ?big)))"
    unfolding b4 using oldest newest mid by simp
  from q2 size_trim_keeps_recent [where m = ?quiet]
  have q3: "update_statistics ?quiet = ?quiet"
    by blast
  from s2 size_trim_keeps_recent [where m = ?small]
  have s3: "update_statistics ?small = ?small"
    by blast
  show ?thesis
    unfolding Let_def using b1 b2 b3 b4 b5 q1 q2 q3 s1 s2 s3 by blast
qed

section \<open>Properties of the CSV export\<close>

lemma dquote_neq [simp]:
  "dquote \<noteq> CHR '',''" "dquote \<noteq> newline" "CHR '','' \<noteq> newline"
  "CHR '','' \<noteq> dquote" "newline \<noteq> dquote" "newline \<noteq> CHR '',''"
  by (simp_all add: dquote_def newline_def)

lemma csv_scan_quoted:
  "csv_scan Quoted rows flds cur (replace_char dquote [dquote, dquote] m @ dquote # rest) =
   csv_scan QuoteSeen rows flds (cur @ m) rest"
  by (induction m arbitrary: cur) (simp_all add: replace_char_def)

lemma replace_char_absent: "old \<notin> set s \<Longrightarrow> replace_char old new s = s"
  by (induction s) (auto simp: replace_char_def)

lemma digit_in: "digit n \<in> set ''0123456789''"
  unfolding digit_def by (rule nth_mem) simp

lemma digit_not_dquote: "CHR 0x22 \<noteq> digit n"
  using digit_in [of n] by auto

lemma strftime_full_no_dquote: "dquote \<notin> set (strftime_full ts)"
  by (simp add: strftime_full_def padded2_def padded4_def padded6_def dquote_def
        digit_not_dquote)

lemma timestamp_no_dquote: "dquote \<notin> set (drop_last3 (strftime_full ts))"
  using strftime_full_no_dquote [of ts] by (auto simp: drop_last3_def dest: in_set_takeD)

lemma level_name_no_dquote: "dquote \<notin> set (get_level_name e)"
  by (auto simp: get_level_name_def level_entry_def LOG_LEVELS_def dquote_def
           split: option.splits if_splits)

lemma format_entry_csv_Some:
  "message e = Some m \<Longrightarrow>
   format_entry_csv inc e =
     Inr (if inc
          then csv_quoted (drop_last3 (strftime_full (timestamp e))) @ '','' @
               csv_quoted (get_level_name e) @ '','' @
               csv_quoted (replace_char dquote [dquote, dquote] m)
          else csv_quoted (get_level_name e) @ '','' @
               csv_quoted (replace_char dquote [dquote, dquote] m))"
  by (simp add: format_entry_csv_def csv_quoted_def)

lemma csv_scan_quoted_field:
  "csv_scan FieldStart rows flds [] (csv_quoted (replace_char dquote [dquote, dquote] m) @ rest) =
   csv_scan QuoteSeen rows flds m rest"
  using csv_scan_quoted [of rows flds "[]" m rest] by (simp add: csv_quoted_def)

lemma csv_scan_quoted_field_plain:
  "dquote \<notin> set s \<Longrightarrow>
   csv_scan FieldStart rows flds [] (csv_quoted s @ rest) = csv_scan QuoteSeen rows flds s rest"
  using csv_scan_quoted_field [of rows flds s rest] by (simp add: replace_char_absent)

lemma csv_scan_line:
  assumes "message e = Some m" and "format_entry_csv inc e = Inr line"
  shows "csv_scan FieldStart rows [] [] (line @ rest) =
         csv_scan QuoteSeen rows (butlast (csv_row inc e)) m rest"
proof (cases inc)
  case True
  with assms have "line = csv_quoted (drop_last3 (strftime_full (timestamp e))) @ '','' @
               csv_quoted (get_level_name e) @ '','' @
               csv_quoted (replace_char dquote [dquote, dquote] m)"
    by (simp add: format_entry_csv_Some)
  then show ?thesis
    using True assms(1)
    by (simp add: csv_scan_quoted_field_plain csv_scan_quoted_field timestamp_no_dquote
          level_name_no_dquote csv_row_def)
next
  case False
  with assms have "line = csv_quoted (get_level_name e) @ '','' @
               csv_quoted (replace_char dquote [dquote, dquote] m)"
    by (simp add: format_entry_csv_Some)
  then show ?thesis
    using False assms(1)
    by (simp add: csv_scan_quoted_field_plain csv_scan_quoted_field
          level_name_no_dquote csv_row_def)
qed

lemma butlast_csv_row: "message e = Some m \<Longrightarrow> butlast (csv_row inc e) @ [m] = csv_row inc e"
  by (simp add: csv_row_def)

lemma csv_read_line:
  assumes "message e = Some m" and "format_entry_csv inc e = Inr line"
  shows "csv_read line = Some [csv_row inc e]"
  using csv_scan_line [OF assms, of "[]" "[]"] butlast_csv_row [OF assms(1), of inc]
  by (simp add: csv_read_def)

lemma write_entries_scan:
  assumes "\<forall>e \<in> set es. message e \<noteq> None"
  shows "\<exists>body. write_entries inc es = Inr body \<and>
           csv_scan FieldStart rows [] [] body = Some (rows @ map (csv_row inc) es)"
  using assms
proof (induction es arbitrary: rows)
  case Nil
  then show ?case by simp
next
  case (Cons e es)
  then obtain m where m: "message e = Some m" by auto
  then obtain line where line: "format_entry_csv inc e = Inr line"
    by (simp add: format_entry_csv_Some)
  from Cons obtain body where body: "write_entries inc es = Inr body"
    "csv_scan FieldStart (rows @ [csv_row inc e]) [] [] body =
       Some ((rows @ [csv_row inc e]) @ map (csv_row inc) es)"
    by (metis list.set_intros(2))
  have "csv_scan FieldStart rows [] [] (line @ newline # body) =
        csv_scan QuoteSeen rows (butlast (csv_row inc e)) m (newline # body)"
    by (rule csv_scan_line [OF m line])
  also have "\<dots> = csv_scan FieldStart (rows @ [csv_row inc e]) [] [] body"
    using butlast_csv_row [OF m, of inc] by simp
  finally show ?case
    using line body by simp
qed

lemma csv_scan_header:
  "csv_scan FieldStart [] [] [] (csv_header inc @ body) =
   csv_scan FieldStart
     [if inc then [''Timestamp'', ''Level'', ''Message''] else [''Level'', ''Message'']] [] [] body"
  by (simp add: csv_header_def dquote_def newline_def)

text \<open>
  C8: for every entry (with a message, as every constructed entry has), the CSV
  export writes one record in which every field stands between double quotes and
  each double quote of the message is doubled. Reading the record back as CSV gives
  the timestamp (when included), the display name and the message unchanged, whatever
  double quotes, commas or newlines the message contains. The whole exported text
  reads back as the header row, which names the columns present (\<open>Timestamp\<close>,
  \<open>Level\<close>, \<open>Message\<close> with timestamps, \<open>Level\<close>, \<open>Message\<close> without), followed by one
  record for each exported entry, in order.
\<close>

theorem csv_export_round_trip:
  assumes "\<forall>e \<in> set entries. message e \<noteq> None"
  shows "(\<forall>e \<in> set entries.
            format_entry_csv inc e =
              Inr (if inc
                   then csv_quoted (drop_last3 (strftime_full (timestamp e))) @ '','' @
                        csv_quoted (get_level_name e) @ '','' @
                        csv_quoted (replace_char dquote [dquote, dquote] (the (message e)))
                   else csv_quoted (get_level_name e) @ '','' @
                        csv_quoted (replace_char dquote [dquote, dquote] (the (message e)))) \<and>
            (\<exists>line. format_entry_csv inc e = Inr line \<and> csv_read line = Some [csv_row inc e]) \<and>
            length (csv_row inc e) =
              length (if inc then [''Timestamp'', ''Level'', ''Message'']
                      else [''Level'', ''Message''])) \<and>
         (\<exists>text. export_logs_csv inc cbs entries = Inr text \<and>
            csv_read text =
              Some ((if inc then [''Timestamp'', ''Level'', ''Message'']
                     else [''Level'', ''Message'']) #
                    map (csv_row inc) (get_filtered_entries cbs entries))) \<and>
         message (LogEntry raw ts lvl msg) \<noteq> None"
proof -
  have one: "format_entry_csv inc e =
              Inr (if inc
                   then csv_quoted (drop_last3 (strftime_full (timestamp e))) @ '','' @
                        csv_quoted (get_level_name e) @ '','' @
                        csv_quoted (replace_char dquote [dquote, dquote] (the (message e)))
                   else csv_quoted (get_level_name e) @ '','' @
                        csv_quoted (replace_char dquote [dquote, dquote] (the (message e)))) \<and>
            (\<exists>line. format_entry_csv inc e = Inr line \<and> csv_read line = Some [csv_row inc e]) \<and>
            length (csv_row inc e) =
              length (if inc then [''Timestamp'', ''Level'', ''Message'']
                      else [''Level'', ''Message''])"
    if "e \<in> set entries" for e
  proof -
    from that assms obtain m where m: "message e = Some m" by auto
    show ?thesis
      using format_entry_csv_Some [OF m, of inc] csv_read_line [OF m] m
      by (simp add: csv_row_def)
  qed
  have "\<forall>e \<in> set (get_filtered_entries cbs entries). message e \<noteq> None"
    using assms by (simp add: get_filtered_entries_def)
  from write_entries_scan [OF this, of inc
      "[if inc then [''Timestamp'', ''Level'', ''Message''] else [''Level'', ''Message'']]"]
  obtain body where body: "write_entries inc (get_filtered_entries cbs entries) = Inr body"
    "csv_scan FieldStart
       [if inc then [''Timestamp'', ''Level'', ''Message''] else [''Level'', ''Message'']]
       [] [] body =
     Some ((if inc then [''Timestamp'', ''Level'', ''Message''] else [''Level'', ''Message'']) #
           map (csv_row inc) (get_filtered_entries cbs entries))"
    by auto
  have "\<exists>text. export_logs_csv inc cbs entries = Inr text \<and>
            csv_read text =
              Some ((if inc then [''Timestamp'', ''Level'', ''Message'']
                     else [''Level'', ''Message'']) #
                    map (csv_row inc) (get_filtered_entries cbs entries))"
    using body by (simp add: export_logs_csv_def csv_read_def csv_scan_header)
  with one LogEntry_has_message [of raw ts lvl msg] show ?thesis by blast
qed

theorem csv_export_round_trip_witness:
  "message (LogEntry (''say '' @ [CHR 0x22] @ ''hi, you'' @ [CHR 0x22]) \<lparr>year = 2024, month = 5, day = 17, hour = 9, minute = 3, second = 7,
       microsecond = 123456\<rparr> None None) =
     Some (''say '' @ [CHR 0x22] @ ''hi, you'' @ [CHR 0x22]) \<and>
   (\<exists>line.
      format_entry_csv True
        (LogEntry (''say '' @ [CHR 0x22] @ ''hi, you'' @ [CHR 0x22]) \<lparr>year = 2024, month = 5, day = 17, hour = 9, minute = 3, second = 7,
       microsecond = 123456\<rparr> None None) = Inr line \<and>
      csv_read line =
        Some [ [''2024-05-17 09:03:07.123'', ''GENERIC'',
               ''say '' @ [CHR 0x22] @ ''hi, you'' @ [CHR 0x22]]]) \<and>
   (\<exists>text.
      export_logs_csv True (replicate 7 True)
        [LogEntry (''say '' @ [CHR 0x22] @ ''hi, you'' @ [CHR 0x22]) \<lparr>year = 2024, month = 5, day = 17, hour = 9, minute = 3, second = 7,
       microsecond = 123456\<rparr> None None] = Inr text \<and>
      csv_read text =
        Some [ [''Timestamp'', ''Level'', ''Message''],
              [''2024-05-17 09:03:07.123'', ''GENERIC'',
               ''say '' @ [CHR 0x22] @ ''hi, you'' @ [CHR 0x22]]])"
proof -
  let ?e = "LogEntry (''say '' @ [CHR 0x22] @ ''hi, you'' @ [CHR 0x22]) \<lparr>year = 2024, month = 5, day = 17, hour = 9, minute = 3, second = 7,
       microsecond = 123456\<rparr> None None"
  have e: "?e = \<lparr>raw_data = ''say '' @ [CHR 0x22] @ ''hi, you'' @ [CHR 0x22], timestamp = \<lparr>year = 2024, month = 5, day = 17, hour = 9, minute = 3, second = 7,
       microsecond = 123456\<rparr>,
       level = Some ''verbose'', message = Some (''say '' @ [CHR 0x22] @ ''hi, you'' @ [CHR 0x22]),
       parsed = False\<rparr>"
    by (simp add: classify_defs)
  have h: "\<forall>x \<in> set [?e]. message x \<noteq> None"
    using e by simp
  have row: "csv_row True ?e =
      [''2024-05-17 09:03:07.123'', ''GENERIC'', ''say '' @ [CHR 0x22] @ ''hi, you'' @ [CHR 0x22]]"
    using e
    by (simp add: csv_row_def drop_last3_def strftime_full_def padded2_def padded4_def
          padded6_def digit_def get_level_name_def level_entry_def LOG_LEVELS_def)
  have sel: "get_filtered_entries (replicate 7 True) [?e] = [?e]"
    using e
    by (simp add: get_filtered_entries_def selected_levels_def LOG_LEVELS_def upt_conv_Cons)
  note t = csv_export_round_trip [OF h, of True "replicate 7 True"]
  have mem: "?e \<in> set [?e]" by simp
  from t mem
  have a: "\<exists>line. format_entry_csv True ?e = Inr line \<and> csv_read line = Some [csv_row True ?e]"
    by blast
  from t
  have b: "\<exists>text. export_logs_csv True (replicate 7 True) [?e] = Inr text \<and>
           csv_read text =
             Some ((if True then [''Timestamp'', ''Level'', ''Message'']
                    else [''Level'', ''Message'']) #
                   map (csv_row True) (get_filtered_entries (replicate 7 True) [?e]))"
    by blast
  from a b have "(\<exists>line. format_entry_csv True ?e = Inr line \<and>
            csv_read line = Some [csv_row True ?e]) \<and>
        (\<exists>text. export_logs_csv True (replicate 7 True) [?e] = Inr text \<and>
           csv_read text =
             Some ([''Timestamp'', ''Level'', ''Message''] #
                   map (csv_row True) (get_filtered_entries (replicate 7 True) [?e])))"
    by simp
  then show ?thesis
    using e unfolding sel list.map row by simp
qed

end
